theory Spec2Isabelle
  imports Main
begin

section \<open>Exceptions\<close>

text \<open>
  Every exception the pipeline can meet is an instance of Python's \<open>Exception\<close>: it has
  a class and a message (\<open>str(e)\<close>).  \<open>IOException\<close> is duckdb's class for a remote
  source that cannot be read; \<open>ValueError\<close> is raised by the driver itself, by
  \<open>datetime.strptime\<close> and by \<open>datetime.replace\<close>; \<open>OtherError\<close> stands for every
  other subclass of \<open>Exception\<close>.
\<close>

datatype exn_class = IOException | ValueError | OtherError

datatype exn = Exn exn_class string

fun exn_class_of :: "exn \<Rightarrow> exn_class" where
  "exn_class_of (Exn c m) = c"

fun str_exn :: "exn \<Rightarrow> string" where
  "str_exn (Exn c m) = m"

section \<open>Decimal rendering: \<open>str\<close> of an integer and \<open>zfill\<close>\<close>

definition digit_char :: "nat \<Rightarrow> char" where
  "digit_char d = ''0123456789'' ! d"

function str_nat :: "nat \<Rightarrow> string" where
  "str_nat n = (if n < 10 then [digit_char n] else str_nat (n div 10) @ [digit_char (n mod 10)])"
  by pat_completeness auto
termination
  by (relation "measure id") auto

definition zfill :: "nat \<Rightarrow> string \<Rightarrow> string" where
  "zfill width s = replicate (width - length s) (CHR ''0'') @ s"

section \<open>\<open>datetime\<close>, \<open>strptime\<close>, \<open>strftime\<close> and \<open>relativedelta\<close>\<close>

record datetime =
  year :: nat
  month :: nat
  day :: nat
  hour :: nat
  minute :: nat
  second :: nat
  microsecond :: nat

text \<open>Python compares two datetimes field by field, from the year down.\<close>

fun lex_le :: "nat list \<Rightarrow> nat list \<Rightarrow> bool" where
  "lex_le [] ys = True"
| "lex_le (x # xs) [] = False"
| "lex_le (x # xs) (y # ys) = (x < y \<or> (x = y \<and> lex_le xs ys))"

definition datetime_fields :: "datetime \<Rightarrow> nat list" where
  "datetime_fields d = [year d, month d, day d, hour d, minute d, second d, microsecond d]"

definition datetime_le :: "datetime \<Rightarrow> datetime \<Rightarrow> bool" where
  "datetime_le a b = lex_le (datetime_fields a) (datetime_fields b)"

definition is_digit :: "char \<Rightarrow> bool" where
  "is_digit c = (48 \<le> (of_char c :: nat) \<and> (of_char c :: nat) \<le> 57)"

definition digit_val :: "char \<Rightarrow> nat" where
  "digit_val c = of_char c - 48"

definition first_of_month :: "nat \<Rightarrow> nat \<Rightarrow> datetime" where
  "first_of_month y m =
     \<lparr>year = y, month = m, day = 1, hour = 0, minute = 0, second = 0, microsecond = 0\<rparr>"

text \<open>
  The messages of the \<open>ValueError\<close>s of \<open>datetime\<close>.  \<open>repr_str\<close> is Python's \<open>repr\<close>
  of a string of printable characters without quotes or backslashes: the string between
  single quotes.
\<close>

definition repr_str :: "string \<Rightarrow> string" where
  "repr_str s = [CHR 0x27] @ s @ [CHR 0x27]"

definition does_not_match :: "string \<Rightarrow> exn" where
  "does_not_match s =
     Exn ValueError (''time data '' @ repr_str s @ '' does not match format '' @ repr_str ''%Y-%m'')"

definition unconverted_data :: "string \<Rightarrow> exn" where
  "unconverted_data rest = Exn ValueError (''unconverted data remains: '' @ rest)"

definition year_out_of_range :: "int \<Rightarrow> exn" where
  "year_out_of_range y =
     Exn ValueError (''year '' @ (if y < 0 then ''-'' @ str_nat (nat (- y)) else str_nat (nat y)) @
                     '' is out of range'')"

text \<open>
  The month group of the format's regular expression, \<open>1[0-2]|0[1-9]|[1-9]\<close>, matched at
  the head of a string: the month and what is left of the string.
\<close>

fun match_month :: "string \<Rightarrow> (nat \<times> string) option" where
  "match_month (m1 # m2 # rest) =
     (if m1 = CHR ''1'' \<and> is_digit m2 \<and> digit_val m2 \<le> 2 then Some (10 + digit_val m2, rest)
      else if m1 = CHR ''0'' \<and> is_digit m2 \<and> 1 \<le> digit_val m2 then Some (digit_val m2, rest)
      else if is_digit m1 \<and> 1 \<le> digit_val m1 then Some (digit_val m1, m2 # rest)
      else None)"
| "match_month [m1] = (if is_digit m1 \<and> 1 \<le> digit_val m1 then Some (digit_val m1, []) else None)"
| "match_month [] = None"

text \<open>
  \<open>datetime.strptime(s, "%Y-%m")\<close>: the string must start with four digits, a dash and a
  month (else it does not match the format), nothing may be left over (else unconverted
  data remains), and the year 0000 is refused by \<open>datetime\<close>.  The day is 1 and the time
  of day is midnight.
\<close>

fun strptime :: "string \<Rightarrow> exn + datetime" where
  "strptime (a # b # c # d # sep # ms) =
     (if is_digit a \<and> is_digit b \<and> is_digit c \<and> is_digit d \<and> sep = CHR ''-'' then
        (case match_month ms of
           None \<Rightarrow> Inl (does_not_match (a # b # c # d # sep # ms))
         | Some (m, rest) \<Rightarrow>
             (let y = 1000 * digit_val a + 100 * digit_val b + 10 * digit_val c + digit_val d
              in if rest \<noteq> [] then Inl (unconverted_data rest)
                 else if y < 1 then Inl (year_out_of_range (int y))
                 else Inr (first_of_month y m)))
      else Inl (does_not_match (a # b # c # d # sep # ms)))"
| "strptime s = Inl (does_not_match s)"

text \<open>
  \<open>d.strftime("%Y-%m")\<close>, as the C library renders it: the year without padding, the
  month as two digits.
\<close>

definition strftime :: "datetime \<Rightarrow> string" where
  "strftime d = str_nat (year d) @ ''-'' @ zfill 2 (str_nat (month d))"

definition isleap :: "nat \<Rightarrow> bool" where
  "isleap y = (y mod 4 = 0 \<and> (y mod 100 \<noteq> 0 \<or> y mod 400 = 0))"

definition monthrange :: "nat \<Rightarrow> nat \<Rightarrow> nat" where
  "monthrange y m =
     (if m = 2 then (if isleap y then 29 else 28)
      else if m = 4 \<or> m = 6 \<or> m = 9 \<or> m = 11 then 30 else 31)"

text \<open>
  \<open>other + relativedelta(months=k)\<close> for \<open>1 \<le> |k| \<le> 12\<close> (the driver uses 1 and -3):
  the month moves by \<open>k\<close>, carrying into the year; the day is clipped to the length of the
  new month; \<open>datetime.replace\<close> raises \<open>ValueError\<close> when the year leaves 1..9999.
\<close>

definition relativedelta_add :: "datetime \<Rightarrow> int \<Rightarrow> exn + datetime" where
  "relativedelta_add other months =
     (let month0 = int (month other) + months;
          year1 = (if month0 > 12 then int (year other) + 1
                   else if month0 < 1 then int (year other) - 1 else int (year other));
          month1 = (if month0 > 12 then month0 - 12
                    else if month0 < 1 then month0 + 12 else month0)
      in if year1 < 1 \<or> 9999 < year1 then Inl (year_out_of_range year1)
         else Inr (other\<lparr>year := nat year1, month := nat month1,
                         day := min (monthrange (nat year1) (nat month1)) (day other)\<rparr>))"

section \<open>Partition path compiler\<close>

text \<open>
  \<open>Template("locationid={{location_id}}/year={{year}}/month={{month}}/*").render(...)\<close>:
  the template the driver passes, with its three variables substituted.
\<close>

definition data_file_path_template :: "string \<Rightarrow> string \<Rightarrow> string \<Rightarrow> string" where
  "data_file_path_template location_id y m =
     ''locationid='' @ location_id @ ''/year='' @ y @ ''/month='' @ m @ ''/*''"

text \<open>
  The measure of both month loops: the loop runs while \<open>index_date <= end_date\<close>, and each
  round either moves to a later month of the same year or to a later year.
\<close>

definition month_loop_measure :: "datetime \<Rightarrow> datetime \<Rightarrow> nat" where
  "month_loop_measure index_date end_date =
     (Suc (year end_date) - year index_date) * 13 + (12 - month index_date)"

lemma lex_le_year: "datetime_le a b \<Longrightarrow> year a \<le> year b"
  by (auto simp: datetime_le_def datetime_fields_def)

lemma month_loop_measure_decreases:
  assumes "datetime_le index_date end_date"
    and "relativedelta_add index_date 1 = Inr next_date"
  shows "month_loop_measure next_date end_date < month_loop_measure index_date end_date"
proof -
  have y: "year index_date \<le> year end_date"
    using assms(1) by (rule lex_le_year)
  show ?thesis
  proof (cases "month index_date + 1 > 12")
    case True
    with assms(2) have "year next_date = Suc (year index_date)"
      by (auto simp: relativedelta_add_def Let_def split: if_splits)
    with True y show ?thesis
      by (simp add: month_loop_measure_def)
  next
    case False
    with assms(2) have "year next_date = year index_date" "month next_date = Suc (month index_date)"
      by (auto simp: relativedelta_add_def Let_def split: if_splits)
    with False y show ?thesis
      by (simp add: month_loop_measure_def)
  qed
qed

text \<open>The inner \<open>while\<close> loop of \<open>compile_data_file_paths\<close>, for one location.\<close>

function compile_month_loop ::
  "string \<Rightarrow> datetime \<Rightarrow> datetime \<Rightarrow> string list \<Rightarrow> exn + string list" where
  "compile_month_loop location_id index_date end_date data_file_paths =
     (if datetime_le index_date end_date then
        (case relativedelta_add index_date 1 of
           Inl e \<Rightarrow> Inl e
         | Inr next_date \<Rightarrow>
             compile_month_loop location_id next_date end_date
               (data_file_paths @
                  [data_file_path_template location_id (str_nat (year index_date))
                     (zfill 2 (str_nat (month index_date)))]))
      else Inr data_file_paths)"
  by pat_completeness auto
termination
  by (relation "measure (\<lambda>(l, i, e, ps). month_loop_measure i e)")
    (auto simp: month_loop_measure_decreases)

text \<open>The outer \<open>for\<close> loop over the location ids.\<close>

fun compile_location_loop ::
  "string list \<Rightarrow> datetime \<Rightarrow> datetime \<Rightarrow> string list \<Rightarrow> exn + string list" where
  "compile_location_loop [] start_dt end_dt data_file_paths = Inr data_file_paths"
| "compile_location_loop (location_id # rest) start_dt end_dt data_file_paths =
     (case compile_month_loop location_id start_dt end_dt data_file_paths of
        Inl e \<Rightarrow> Inl e
      | Inr data_file_paths' \<Rightarrow> compile_location_loop rest start_dt end_dt data_file_paths')"

definition compile_data_file_paths :: "string list \<Rightarrow> string \<Rightarrow> string \<Rightarrow> exn + string list" where
  "compile_data_file_paths location_ids start_date end_date =
     (case strptime start_date of
        Inl e \<Rightarrow> Inl e
      | Inr start_dt \<Rightarrow>
          (case strptime end_date of
             Inl e \<Rightarrow> Inl e
           | Inr end_dt \<Rightarrow> compile_location_loop location_ids start_dt end_dt []))"

section \<open>The store, the clock and the log\<close>

text \<open>
  A row of \<open>raw.extraction_log\<close>; the field \<open>log_c\<close> is the column \<open>c\<close>.
\<close>

record extraction_log_row =
  log_extraction_id :: nat
  log_extraction_start_datetime :: datetime
  log_extraction_end_datetime :: "datetime option"
  log_start_date :: string
  log_end_date :: string
  log_status :: string
  log_records_extracted :: "nat option"
  log_error_message :: "string option"

text \<open>
  A row of \<open>raw.air_quality\<close>, reduced to the two partition columns the driver's own
  statements read: \<open>year\<close>, compared with a number, and \<open>month\<close>, compared with a string.
\<close>

record air_quality_row =
  aq_year :: nat
  aq_month :: string

text \<open>The statements the driver submits to the storage engine, with their parameters.\<close>

datatype statement =
    SelectLastSuccessful
  | InsertExtractionLog datetime string string
  | UpdateCompleted datetime nat nat
  | UpdateFailed datetime string nat
  | DeleteAirQuality nat string
  | Load string
  | CountAirQuality string string

datatype level = INFO | WARNING | ERROR

record world =
  clock :: nat
  extraction_log :: "extraction_log_row list"
  air_quality :: "air_quality_row list"
  submitted :: "(statement \<times> exn option) list"
  logging :: "(level \<times> string) list"
  closed :: nat

text \<open>
  What the driver does not decide: the readings of \<open>datetime.now()\<close>, one per call; whether
  the engine raises on a statement, given how many statements were submitted before it;
  the row the view \<open>raw.last_successful_extraction\<close> yields (\<open>None\<close>: no row,
  \<open>Some None\<close>: a NULL); the id the engine assigns to a new row; what a load statement
  does to \<open>raw.air_quality\<close>; the rendering of the extract query template; and the
  reading of the template file.  The view, the id sequence, the template and the module
  \<open>database_manager\<close> are not part of the sources at hand.
\<close>

record env =
  now :: "nat \<Rightarrow> datetime"
  raises :: "nat \<Rightarrow> statement \<Rightarrow> exn option"
  last_successful_extraction :: "extraction_log_row list \<Rightarrow> string option option"
  new_extraction_id :: "extraction_log_row list \<Rightarrow> nat"
  load_rows :: "string \<Rightarrow> air_quality_row list \<Rightarrow> air_quality_row list"
  render :: "string \<Rightarrow> string \<Rightarrow> string"
  read_query :: "string \<Rightarrow> exn + string"

definition log_msg :: "level \<Rightarrow> string \<Rightarrow> world \<Rightarrow> world" where
  "log_msg lvl msg w = w\<lparr>logging := logging w @ [(lvl, msg)]\<rparr>"

definition datetime_now :: "env \<Rightarrow> world \<Rightarrow> datetime \<times> world" where
  "datetime_now E w = (now E (clock w), w\<lparr>clock := Suc (clock w)\<rparr>)"

definition close_database_connection :: "world \<Rightarrow> world" where
  "close_database_connection w = w\<lparr>closed := Suc (closed w)\<rparr>"

text \<open>Strings compare byte by byte, as the engine's default collation does.\<close>

fun str_le :: "string \<Rightarrow> string \<Rightarrow> bool" where
  "str_le [] t = True"
| "str_le (a # s) [] = False"
| "str_le (a # s) (b # t) =
     ((of_char a :: nat) < of_char b \<or> (a = b \<and> str_le s t))"

text \<open>\<open>year || '-' || month\<close> and the \<open>WHERE\<close> clause of the row-count query.\<close>

definition partition_key :: "air_quality_row \<Rightarrow> string" where
  "partition_key r = str_nat (aq_year r) @ ''-'' @ aq_month r"

definition in_range :: "string \<Rightarrow> string \<Rightarrow> air_quality_row \<Rightarrow> bool" where
  "in_range start_date end_date r =
     (str_le start_date (partition_key r) \<and> str_le (partition_key r) end_date)"

definition set_completed :: "datetime \<Rightarrow> nat \<Rightarrow> nat \<Rightarrow> extraction_log_row \<Rightarrow> extraction_log_row" where
  "set_completed ts n i r =
     (if log_extraction_id r = i
      then r\<lparr>log_extraction_end_datetime := Some ts, log_status := ''completed'',
              log_records_extracted := Some n\<rparr>
      else r)"

definition set_failed :: "datetime \<Rightarrow> string \<Rightarrow> nat \<Rightarrow> extraction_log_row \<Rightarrow> extraction_log_row" where
  "set_failed ts msg i r =
     (if log_extraction_id r = i
      then r\<lparr>log_extraction_end_datetime := Some ts, log_status := ''failed'',
              log_error_message := Some msg\<rparr>
      else r)"

text \<open>What a statement that did not raise does to the store.\<close>

fun apply_statement :: "env \<Rightarrow> statement \<Rightarrow> world \<Rightarrow> world" where
  "apply_statement E SelectLastSuccessful w = w"
| "apply_statement E (InsertExtractionLog ts s e) w =
     w\<lparr>extraction_log := extraction_log w @
        [\<lparr>log_extraction_id = new_extraction_id E (extraction_log w),
          log_extraction_start_datetime = ts, log_extraction_end_datetime = None,
          log_start_date = s, log_end_date = e, log_status = ''running'',
          log_records_extracted = None, log_error_message = None\<rparr>]\<rparr>"
| "apply_statement E (UpdateCompleted ts n i) w =
     w\<lparr>extraction_log := map (set_completed ts n i) (extraction_log w)\<rparr>"
| "apply_statement E (UpdateFailed ts msg i) w =
     w\<lparr>extraction_log := map (set_failed ts msg i) (extraction_log w)\<rparr>"
| "apply_statement E (DeleteAirQuality y mm) w =
     w\<lparr>air_quality := filter (\<lambda>r. \<not> (aq_year r = y \<and> aq_month r = mm)) (air_quality w)\<rparr>"
| "apply_statement E (Load q) w = w\<lparr>air_quality := load_rows E q (air_quality w)\<rparr>"
| "apply_statement E (CountAirQuality s e) w = w"

text \<open>
  \<open>con.execute\<close> and \<open>execute_query\<close>: the statement is recorded with its outcome; when
  the engine raises, the store is left as it was.
\<close>

definition execute :: "env \<Rightarrow> statement \<Rightarrow> world \<Rightarrow> exn option \<times> world" where
  "execute E q w =
     (let r = raises E (length (submitted w)) q;
          w1 = w\<lparr>submitted := submitted w @ [(q, r)]\<rparr>
      in case r of Some e \<Rightarrow> (Some e, w1) | None \<Rightarrow> (None, apply_statement E q w1))"

section \<open>Extraction ledger\<close>

definition get_last_extraction_date :: "env \<Rightarrow> world \<Rightarrow> string option \<times> world" where
  "get_last_extraction_date E w =
     (case execute E SelectLastSuccessful w of
        (Some e, w1) \<Rightarrow>
          (None, log_msg WARNING (''Could not retrieve last extraction date: '' @ str_exn e) w1)
      | (None, w1) \<Rightarrow>
          (case last_successful_extraction E (extraction_log w1) of
             Some (Some end_date) \<Rightarrow> (if end_date \<noteq> [] then Some end_date else None, w1)
           | _ \<Rightarrow> (None, w1)))"

definition log_extraction_start :: "env \<Rightarrow> string \<Rightarrow> string \<Rightarrow> world \<Rightarrow> (exn + nat) \<times> world" where
  "log_extraction_start E s e w =
     (let (ts, w1) = datetime_now E w
      in case execute E (InsertExtractionLog ts s e) w1 of
           (Some x, w2) \<Rightarrow> (Inl x, w2)
         | (None, w2) \<Rightarrow>
             (let i = new_extraction_id E (extraction_log w1)
              in (Inr i, log_msg INFO (''Started extraction job '' @ str_nat i) w2)))"

definition log_extraction_complete :: "env \<Rightarrow> nat \<Rightarrow> nat \<Rightarrow> world \<Rightarrow> exn option \<times> world" where
  "log_extraction_complete E i n w =
     (let (ts, w1) = datetime_now E w
      in case execute E (UpdateCompleted ts n i) w1 of
           (Some x, w2) \<Rightarrow> (Some x, w2)
         | (None, w2) \<Rightarrow>
             (None, log_msg INFO (''Completed extraction job '' @ str_nat i @ '' with '' @
                                    str_nat n @ '' records'') w2))"

definition log_extraction_failed :: "env \<Rightarrow> nat \<Rightarrow> string \<Rightarrow> world \<Rightarrow> exn option \<times> world" where
  "log_extraction_failed E i msg w =
     (let (ts, w1) = datetime_now E w
      in case execute E (UpdateFailed ts msg i) w1 of
           (Some x, w2) \<Rightarrow> (Some x, w2)
         | (None, w2) \<Rightarrow>
             (None, log_msg ERROR (''Failed extraction job '' @ str_nat i @ '': '' @ msg) w2))"

section \<open>Date range resolver\<close>

text \<open>Python's truth value of an optional string: \<open>None\<close> and the empty string are false.\<close>

fun truthy :: "string option \<Rightarrow> bool" where
  "truthy None = False"
| "truthy (Some s) = (s \<noteq> [])"

definition determine_date_range :: "env \<Rightarrow> bool \<Rightarrow> world \<Rightarrow> (exn + string \<times> string) \<times> world" where
  "determine_date_range E incr w =
     (if incr then
        (let (last_end_date, w1) = get_last_extraction_date E w;
             (start, w2) =
               (if truthy last_end_date then
                  (case strptime (the last_end_date) of
                     Inl x \<Rightarrow> (Inl x, w1)
                   | Inr last_end_dt \<Rightarrow>
                       (case relativedelta_add last_end_dt 1 of
                          Inl x \<Rightarrow> (Inl x, w1)
                        | Inr start_dt \<Rightarrow> (Inr (strftime start_dt), w1)))
                else
                  (let (n, w2) = datetime_now E w1
                   in case relativedelta_add n (- 3) of
                        Inl x \<Rightarrow> (Inl x, w2)
                      | Inr start_dt \<Rightarrow> (Inr (strftime start_dt), w2)))
         in case start of
              Inl x \<Rightarrow> (Inl x, w2)
            | Inr start_date \<Rightarrow>
                (let (n, w3) = datetime_now E w2;
                     end_date = strftime n
                 in (Inr (start_date, end_date),
                     log_msg INFO (''Incremental mode: Extracting from '' @ start_date @
                                     '' to '' @ end_date) w3)))
      else (Inl (Exn ValueError
        ''Date range must be determined before calling this function in non-incremental mode''), w))"

section \<open>Idempotency guard\<close>

text \<open>The \<open>while\<close> loop of \<open>delete_existing_data\<close>: one \<open>DELETE\<close> for each month.\<close>

function delete_month_loop :: "env \<Rightarrow> datetime \<Rightarrow> datetime \<Rightarrow> world \<Rightarrow> exn option \<times> world" where
  "delete_month_loop E index_date end_dt w =
     (if datetime_le index_date end_dt then
        (let mm = zfill 2 (str_nat (month index_date));
             w1 = log_msg INFO (''Deleting existing data for '' @ str_nat (year index_date) @
                                  ''-'' @ mm) w
         in case execute E (DeleteAirQuality (year index_date) mm) w1 of
              (Some x, w2) \<Rightarrow> (Some x, w2)
            | (None, w2) \<Rightarrow>
                (case relativedelta_add index_date 1 of
                   Inl x \<Rightarrow> (Some x, w2)
                 | Inr next_date \<Rightarrow> delete_month_loop E next_date end_dt w2))
      else (None, w))"
  by pat_completeness auto
termination
proof (relation "measure (\<lambda>(E, i, e, w). month_loop_measure i e)")
  show "wf (measure (\<lambda>(E, i, e, w). month_loop_measure i e))"
    by simp
next
  fix E :: env and index_date end_dt next_date :: datetime and w w2 :: world
  assume "datetime_le index_date end_dt" "relativedelta_add index_date 1 = Inr next_date"
  then show "((E, next_date, end_dt, w2), (E, index_date, end_dt, w))
               \<in> measure (\<lambda>(E, i, e, w). month_loop_measure i e)"
    by (simp add: month_loop_measure_decreases)
qed

definition delete_existing_data :: "env \<Rightarrow> string \<Rightarrow> string \<Rightarrow> world \<Rightarrow> exn option \<times> world" where
  "delete_existing_data E start_date end_date w =
     (case strptime start_date of
        Inl x \<Rightarrow> (Some x, w)
      | Inr start_dt \<Rightarrow>
          (case strptime end_date of
             Inl x \<Rightarrow> (Some x, w)
           | Inr end_dt \<Rightarrow>
               (case delete_month_loop E start_dt end_dt w of
                  (Some x, w1) \<Rightarrow> (Some x, w1)
                | (None, w1) \<Rightarrow>
                    (None, log_msg INFO (''Deleted all existing data from '' @ start_date @
                                           '' to '' @ end_date) w1))))"

section \<open>Load executor\<close>

definition compile_data_file_query :: "env \<Rightarrow> string \<Rightarrow> string \<Rightarrow> string \<Rightarrow> string" where
  "compile_data_file_query E base_path data_file_path extract_query_template =
     render E extract_query_template (base_path @ ''/'' @ data_file_path)"

text \<open>
  The \<open>for\<close> loop over the compiled paths, with its counter \<open>successful_extractions\<close>.
  Only an \<open>IOException\<close> is caught; any other exception leaves the loop.
\<close>

fun load_loop ::
  "env \<Rightarrow> string \<Rightarrow> string \<Rightarrow> string list \<Rightarrow> nat \<Rightarrow> world \<Rightarrow> (exn + nat) \<times> world" where
  "load_loop E base_path tmpl [] successful_extractions w = (Inr successful_extractions, w)"
| "load_loop E base_path tmpl (data_file_path # rest) successful_extractions w =
     (let w1 = log_msg INFO (''Extracting data from '' @ data_file_path) w;
          query = compile_data_file_query E base_path data_file_path tmpl
      in case execute E (Load query) w1 of
           (None, w2) \<Rightarrow>
             load_loop E base_path tmpl rest (successful_extractions + 1)
               (log_msg INFO (''Extracted data from '' @ data_file_path @ ''!'') w2)
         | (Some x, w2) \<Rightarrow>
             (if exn_class_of x = IOException
              then load_loop E base_path tmpl rest successful_extractions
                     (log_msg WARNING (''Could not find data from '' @ data_file_path @ '': '' @
                                         str_exn x) w2)
              else (Inl x, w2)))"

section \<open>Extraction driver\<close>

record args =
  args_incremental :: bool
  args_start_date :: "string option"
  args_end_date :: "string option"
  args_extract_query_template_path :: string
  args_source_base_path :: string

text \<open>Lines 177 to 184 of \<open>extract_data\<close>: the range of the run.\<close>

definition resolve_range :: "env \<Rightarrow> args \<Rightarrow> world \<Rightarrow> (exn + string \<times> string) \<times> world" where
  "resolve_range E a w =
     (if args_incremental a then determine_date_range E True w
      else if \<not> truthy (args_start_date a) \<or> \<not> truthy (args_end_date a)
        then (Inl (Exn ValueError
          ''start_date and end_date are required when not in incremental mode''), w)
      else (Inr (the (args_start_date a), the (args_end_date a)), w))"

text \<open>
  Lines 186 to 195: in incremental mode the ledger is read again, and the run is up to
  date when \<open>last_end_dt >= current_month\<close>, where \<open>current_month\<close> is
  \<open>datetime.now().replace(day=1)\<close>: the reading of the clock with its day set to 1 and its
  time of day kept.
\<close>

definition up_to_date :: "env \<Rightarrow> args \<Rightarrow> world \<Rightarrow> (exn + bool) \<times> world" where
  "up_to_date E a w =
     (if args_incremental a then
        (let (last_end_date, w1) = get_last_extraction_date E w
         in if truthy last_end_date then
              (case strptime (the last_end_date) of
                 Inl x \<Rightarrow> (Inl x, w1)
               | Inr last_end_dt \<Rightarrow>
                   (let (n, w2) = datetime_now E w1;
                        current_month = n\<lparr>day := 1\<rparr>
                    in if datetime_le current_month last_end_dt
                       then (Inr True,
                             log_msg INFO ''No new data to extract. Already up to date.'' w2)
                       else (Inr False, w2)))
            else (Inr False, w1))
      else (Inr False, w))"

text \<open>The row-count query after the loop (lines 234 to 237).\<close>

definition count_records :: "env \<Rightarrow> string \<Rightarrow> string \<Rightarrow> world \<Rightarrow> (exn + nat) \<times> world" where
  "count_records E start_date end_date w =
     (case execute E (CountAirQuality start_date end_date) w of
        (Some x, w1) \<Rightarrow> (Inl x, w1)
      | (None, w1) \<Rightarrow>
          (Inr (length (filter (in_range start_date end_date) (air_quality w1))), w1))"

text \<open>Lines 200 to 240: what the \<open>try\<close> block does once the job is opened.\<close>

definition run_job ::
  "env \<Rightarrow> args \<Rightarrow> string list \<Rightarrow> nat \<Rightarrow> string \<Rightarrow> string \<Rightarrow> world \<Rightarrow> (exn + unit) \<times> world" where
  "run_job E a location_ids i start_date end_date w =
     (case compile_data_file_paths location_ids start_date end_date of
        Inl x \<Rightarrow> (Inl x, w)
      | Inr data_file_paths \<Rightarrow>
          (case read_query E (args_extract_query_template_path a) of
             Inl x \<Rightarrow> (Inl x, w)
           | Inr extract_query_template \<Rightarrow>
               (case (if \<not> args_incremental a
                      then delete_existing_data E start_date end_date
                             (log_msg INFO
                                ''Deleting existing data for the specified date range...'' w)
                      else (None, w)) of
                  (Some x, w1) \<Rightarrow> (Inl x, w1)
                | (None, w1) \<Rightarrow>
                    (case load_loop E (args_source_base_path a) extract_query_template
                            data_file_paths 0 w1 of
                       (Inl x, w2) \<Rightarrow> (Inl x, w2)
                     | (Inr successful_extractions, w2) \<Rightarrow>
                         (case count_records E start_date end_date w2 of
                            (Inl x, w3) \<Rightarrow> (Inl x, w3)
                          | (Inr records_extracted, w3) \<Rightarrow>
                              (case log_extraction_complete E i records_extracted w3 of
                                 (Some x, w4) \<Rightarrow> (Inl x, w4)
                               | (None, w4) \<Rightarrow> (Inr (), w4)))))))"

text \<open>
  The \<open>except Exception\<close> handler (lines 242 to 246): the job is marked failed when
  \<open>extraction_id\<close> was assigned, and the exception is raised again.  When the ledger
  write itself raises, that exception leaves the handler instead.
\<close>

definition on_exception :: "env \<Rightarrow> nat option \<Rightarrow> exn \<Rightarrow> world \<Rightarrow> (exn + unit) \<times> world" where
  "on_exception E opened x w =
     (case opened of
        None \<Rightarrow> (Inl x, log_msg ERROR (''Extraction failed: '' @ str_exn x) w)
      | Some i \<Rightarrow>
          (case log_extraction_failed E i (str_exn x) w of
             (Some x', w1) \<Rightarrow> (Inl x', w1)
           | (None, w1) \<Rightarrow> (Inl x, log_msg ERROR (''Extraction failed: '' @ str_exn x) w1)))"

text \<open>The \<open>finally\<close> clause closes the connection whatever happened.\<close>

definition finally_close :: "(exn + unit) \<times> world \<Rightarrow> (exn + unit) \<times> world" where
  "finally_close rw = (fst rw, close_database_connection (snd rw))"

definition extract_data :: "env \<Rightarrow> args \<Rightarrow> string list \<Rightarrow> world \<Rightarrow> (exn + unit) \<times> world" where
  "extract_data E a location_ids w =
     (case resolve_range E a w of
        (Inl x, w1) \<Rightarrow> finally_close (on_exception E None x w1)
      | (Inr (start_date, end_date), w1) \<Rightarrow>
          (case up_to_date E a w1 of
             (Inl x, w2) \<Rightarrow> finally_close (on_exception E None x w2)
           | (Inr True, w2) \<Rightarrow> finally_close (Inr (), close_database_connection w2)
           | (Inr False, w2) \<Rightarrow>
               (case log_extraction_start E start_date end_date w2 of
                  (Inl x, w3) \<Rightarrow> finally_close (on_exception E None x w3)
                | (Inr i, w3) \<Rightarrow>
                    (case run_job E a location_ids i start_date end_date w3 of
                       (Inl x, w4) \<Rightarrow> finally_close (on_exception E (Some i) x w4)
                     | (Inr u, w4) \<Rightarrow> finally_close (Inr (), w4)))))"

section \<open>The compiled sequence enumerates locations, then months\<close>

declare str_nat.simps [simp del]
declare compile_month_loop.simps [simp del]

definition month_number :: "datetime \<Rightarrow> nat" where
  "month_number d = year d * 12 + (month d - 1)"

definition path_of_month :: "string \<Rightarrow> nat \<Rightarrow> string" where
  "path_of_month location_id k =
     data_file_path_template location_id (str_nat (k div 12)) (zfill 2 (str_nat (k mod 12 + 1)))"

lemma digit_val_le: "is_digit c \<Longrightarrow> digit_val c \<le> 9"
  by (auto simp: is_digit_def digit_val_def)

lemma match_month_Some:
  assumes "match_month ms = Some (m, rest)"
  shows "1 \<le> m \<and> m \<le> 12"
proof (cases ms rule: match_month.cases)
  case (1 m1 m2 r)
  with assms digit_val_le[of m1] digit_val_le[of m2] show ?thesis
    by (auto split: if_splits)
next
  case (2 m1)
  with assms digit_val_le[of m1] show ?thesis
    by (auto split: if_splits)
next
  case 3
  with assms show ?thesis by simp
qed

lemma strptime_Inr:
  assumes "strptime s = Inr dt"
  shows "\<exists>y m. dt = first_of_month y m \<and> 1 \<le> y \<and> y \<le> 9999 \<and> 1 \<le> m \<and> m \<le> 12"
proof (cases s rule: strptime.cases)
  case (1 a b c d sep ms)
  let ?y = "1000 * digit_val a + 100 * digit_val b + 10 * digit_val c + digit_val d"
  from assms 1 have dg: "is_digit a" "is_digit b" "is_digit c" "is_digit d"
    by (auto split: if_splits)
  from assms 1 have sep: "sep = CHR ''-''"
    by (auto split: if_splits)
  from assms 1 dg sep obtain m rest where mm: "match_month ms = Some (m, rest)"
    by (cases "match_month ms") auto
  from assms 1 dg sep mm have dt: "dt = first_of_month ?y m" "1 \<le> ?y"
    by (auto simp: Let_def split: if_splits)
  have "?y \<le> 9999"
    using digit_val_le[OF dg(1)] digit_val_le[OF dg(2)] digit_val_le[OF dg(3)] digit_val_le[OF dg(4)]
    by linarith
  with dt match_month_Some[OF mm] show ?thesis by blast
qed (use assms in auto)

lemma datetime_le_first_of_month:
  "datetime_le (first_of_month y m) (first_of_month y' m') = (y < y' \<or> (y = y' \<and> m \<le> m'))"
  by (auto simp: datetime_le_def datetime_fields_def first_of_month_def)

lemma monthrange_ge: "1 \<le> monthrange y m"
  by (simp add: monthrange_def)

lemma relativedelta_add_one:
  assumes "1 \<le> m" "m \<le> 12" "y * 12 + (m - 1) < 9999 * 12 + 11" "1 \<le> y"
  shows "relativedelta_add (first_of_month y m) 1 =
           Inr (first_of_month (Suc (y * 12 + (m - 1)) div 12) (Suc (y * 12 + (m - 1)) mod 12 + 1))"
proof (cases "m = 12")
  case True
  with assms have "y < 9999" by simp
  with True assms show ?thesis
    by (simp add: relativedelta_add_def Let_def first_of_month_def min_def monthrange_def)
next
  case False
  with assms have m: "m < 12" by simp
  have y: "y \<le> 9999" using assms by simp
  have d: "Suc (y * 12 + (m - 1)) div 12 = y" "Suc (y * 12 + (m - 1)) mod 12 = m"
    using m assms(1) by (auto simp: div_nat_eqI mod_nat_eqI)
  show ?thesis using m assms(1) assms(4) y
    unfolding d by (auto simp: relativedelta_add_def Let_def first_of_month_def min_def monthrange_def)
qed

lemma le_div_mod_12_aux:
  fixes qa ra qb rb :: nat
  assumes "ra < 12" "rb < 12"
  shows "(qa < qb \<or> (qa = qb \<and> ra \<le> rb)) = (qa * 12 + ra \<le> qb * 12 + rb)"
  using assms by auto

lemma le_div_mod_12:
  "((a::nat) div 12 < b div 12 \<or> (a div 12 = b div 12 \<and> a mod 12 \<le> b mod 12)) = (a \<le> b)"
  using le_div_mod_12_aux[where ra = "a mod 12" and rb = "b mod 12" and qa = "a div 12" and qb = "b div 12"]
  by simp

definition month_start :: "nat \<Rightarrow> datetime" where
  "month_start k = first_of_month (k div 12) (Suc (k mod 12))"

lemma datetime_le_month_start: "datetime_le (month_start a) (month_start b) = (a \<le> b)"
  by (simp add: month_start_def datetime_le_first_of_month le_div_mod_12)

lemma month_start_fields: "year (month_start k) = k div 12" "month (month_start k) = Suc (k mod 12)"
  by (simp_all add: month_start_def first_of_month_def)

lemma relativedelta_add_month_start:
  assumes "12 \<le> a" "a < 9999 * 12 + 11"
  shows "relativedelta_add (month_start a) 1 = Inr (month_start (Suc a))"
proof -
  have "1 \<le> a div 12" using assms(1) by presburger
  moreover have "a div 12 * 12 + (Suc (a mod 12) - 1) = a" by simp
  ultimately show ?thesis
    using relativedelta_add_one[of "Suc (a mod 12)" "a div 12"] assms(2)
    by (simp add: month_start_def)
qed

lemma compile_month_loop_upto:
  assumes "b < 9999 * 12 + 11"
  shows "12 \<le> a \<Longrightarrow> compile_month_loop location_id (month_start a) (month_start b) acc =
         Inr (acc @ map (path_of_month location_id) [a..<Suc b])"
proof (induction "Suc b - a" arbitrary: a acc)
  case 0
  then have "\<not> a \<le> b" by simp
  then show ?case
    by (subst compile_month_loop.simps) (simp add: datetime_le_month_start)
next
  case (Suc n)
  then have ab: "a \<le> b" by simp
  with assms have a: "a < 9999 * 12 + 11" by simp
  have n: "n = Suc b - Suc a" using Suc(2) by simp
  have "compile_month_loop location_id (month_start a) (month_start b) acc =
        compile_month_loop location_id (month_start (Suc a)) (month_start b)
          (acc @ [path_of_month location_id a])"
    using ab relativedelta_add_month_start[OF Suc(3) a]
    by (subst compile_month_loop.simps)
      (simp add: datetime_le_month_start path_of_month_def month_start_fields)
  also have "\<dots> = Inr ((acc @ [path_of_month location_id a]) @ map (path_of_month location_id) [Suc a..<Suc b])"
    using Suc(3) by (intro Suc(1)[OF n]) simp
  also have "\<dots> = Inr (acc @ map (path_of_month location_id) [a..<Suc b])"
    using ab by (simp add: upt_conv_Cons del: upt_Suc)
  finally show ?case .
qed

lemma compile_location_loop_upto:
  assumes "b < 9999 * 12 + 11" "12 \<le> a"
  shows "compile_location_loop location_ids (month_start a) (month_start b) acc =
         Inr (acc @ concat (map (\<lambda>l. map (path_of_month l) [a..<Suc b]) location_ids))"
  by (induction location_ids arbitrary: acc)
    (simp_all add: compile_month_loop_upto[OF assms] del: upt_Suc)

lemma first_of_month_number:
  assumes "1 \<le> m" "m \<le> 12"
  shows "first_of_month y m = month_start (month_number (first_of_month y m))"
proof -
  from assms obtain m' where m: "m = Suc m'" "m' < 12"
    by (cases m) auto
  then show ?thesis by (simp add: month_number_def first_of_month_def month_start_def)
qed

lemma compile_data_file_paths_months:
  assumes "strptime start_date = Inr start_dt"
    and "strptime end_date = Inr end_dt"
    and "month_number end_dt < 9999 * 12 + 11"
  shows "compile_data_file_paths location_ids start_date end_date =
         Inr (concat (map (\<lambda>location_id.
                map (\<lambda>k. data_file_path_template location_id (str_nat (k div 12))
                             (zfill 2 (str_nat (k mod 12 + 1))))
                  [month_number start_dt ..< Suc (month_number end_dt)]) location_ids))"
proof -
  define a where "a = month_number start_dt"
  define b where "b = month_number end_dt"
  from strptime_Inr[OF assms(1)] obtain y m where
    s: "start_dt = first_of_month y m" "1 \<le> y" "1 \<le> m" "m \<le> 12" by blast
  from strptime_Inr[OF assms(2)] obtain y' m' where
    e: "end_dt = first_of_month y' m'" "1 \<le> m'" "m' \<le> 12" by blast
  have a: "12 \<le> a"
    using s by (simp add: a_def month_number_def first_of_month_def)
  have b: "b < 9999 * 12 + 11"
    using assms(3) by (simp add: b_def)
  have sa: "start_dt = month_start a"
    unfolding a_def s(1) by (rule first_of_month_number[OF s(3,4)])
  have eb: "end_dt = month_start b"
    unfolding b_def e(1) by (rule first_of_month_number[OF e(2,3)])
  have "compile_data_file_paths location_ids start_date end_date =
        compile_location_loop location_ids (month_start a) (month_start b) []"
    using assms(1,2) by (simp add: compile_data_file_paths_def sa eb)
  also note compile_location_loop_upto[OF b a]
  finally show ?thesis
    by (simp add: path_of_month_def[abs_def] a_def b_def del: upt_Suc)
qed

text \<open>
  C8 (amended).  For every list of locations and every range whose two bounds parse and
  whose end month is earlier than 9999-12, the compiled sequence lists the locations in
  the order given and, within each location, the months from the start to the end
  inclusive, one by one in ascending order; for the locations A, B and the range
  2024-01..2024-02 it is (A, 2024-01), (A, 2024-02), (B, 2024-01), (B, 2024-02).
\<close>

theorem compile_data_file_paths_enumeration:
  assumes "strptime start_date = Inr start_dt"
    and "strptime end_date = Inr end_dt"
    and "month_number end_dt < 9999 * 12 + 11"
  shows "compile_data_file_paths location_ids start_date end_date =
         Inr (concat (map (\<lambda>location_id.
                map (\<lambda>k. data_file_path_template location_id (str_nat (k div 12))
                             (zfill 2 (str_nat (k mod 12 + 1))))
                  [month_number start_dt ..< Suc (month_number end_dt)]) location_ids))"
  using assms by (rule compile_data_file_paths_months)

theorem compile_data_file_paths_enumeration_witness:
  "compile_data_file_paths [''A'', ''B''] ''2024-01'' ''2024-02'' =
     Inr [''locationid=A/year=2024/month=01/*'', ''locationid=A/year=2024/month=02/*'',
          ''locationid=B/year=2024/month=01/*'', ''locationid=B/year=2024/month=02/*'']"
proof -
  have s: "strptime ''2024-01'' = Inr (first_of_month 2024 1)"
    by (simp add: is_digit_def digit_val_def Let_def)
  have e: "strptime ''2024-02'' = Inr (first_of_month 2024 2)"
    by (simp add: is_digit_def digit_val_def Let_def first_of_month_def)
  have b: "month_number (first_of_month 2024 2) < 9999 * 12 + 11"
    by (simp add: month_number_def first_of_month_def)
  have n: "[month_number (first_of_month 2024 1) ..< Suc (month_number (first_of_month 2024 2))] = [24288, 24289]"
    by (simp add: month_number_def first_of_month_def upt_conv_Cons)
  have y: "str_nat 2024 = ''2024''"
    by (simp add: str_nat.simps digit_char_def)
  have m: "zfill 2 (str_nat (Suc 0)) = ''01''" "zfill 2 (str_nat (Suc (Suc 0))) = ''02''"
    by (simp_all add: str_nat.simps zfill_def digit_char_def)
  show ?thesis
    using compile_data_file_paths_enumeration[OF s e b, of "[''A'', ''B'']"]
    unfolding n by (simp add: data_file_path_template_def y m)
qed

text \<open>
  C8, as it is worded, fails at the last month a \<open>datetime\<close> can hold: for the range
  9999-11..9999-12 the loop renders both months and then steps to year 10000, where
  \<open>relativedelta\<close> raises, so no sequence is returned.
\<close>

theorem compile_data_file_paths_last_month_counterexample:
  "compile_data_file_paths [''A'', ''B''] ''9999-11'' ''9999-12'' =
     Inl (Exn ValueError ''year 10000 is out of range'')"
proof -
  have s: "strptime ''9999-11'' = Inr (first_of_month 9999 11)"
    by (simp add: is_digit_def digit_val_def Let_def first_of_month_def)
  have e: "strptime ''9999-12'' = Inr (first_of_month 9999 12)"
    by (simp add: is_digit_def digit_val_def Let_def first_of_month_def)
  have step1: "relativedelta_add (first_of_month 9999 11) 1 = Inr (first_of_month 9999 12)"
    by (simp add: relativedelta_add_def first_of_month_def Let_def monthrange_def)
  have msg: "year_out_of_range 10000 = Exn ValueError ''year 10000 is out of range''"
    by (simp add: year_out_of_range_def str_nat.simps digit_char_def)
  have step2: "relativedelta_add (first_of_month 9999 12) 1 =
                 Inl (Exn ValueError ''year 10000 is out of range'')"
    by (simp add: relativedelta_add_def first_of_month_def Let_def msg)
  have le1: "datetime_le (first_of_month 9999 11) (first_of_month 9999 12)"
    and le2: "datetime_le (first_of_month 9999 12) (first_of_month 9999 12)"
    by (simp_all add: datetime_le_first_of_month)
  have "compile_month_loop ''A'' (first_of_month 9999 11) (first_of_month 9999 12) [] =
          Inl (Exn ValueError ''year 10000 is out of range'')"
    by (subst compile_month_loop.simps, simp only: le1 if_True step1 sum.case,
        subst compile_month_loop.simps, simp only: le2 if_True step2 sum.case)
  then show ?thesis
    unfolding compile_data_file_paths_def s e by simp
qed

section \<open>What each operation does to the store\<close>

declare delete_month_loop.simps [simp del]

fun is_delete :: "statement \<Rightarrow> bool" where
  "is_delete (DeleteAirQuality y mm) = True"
| "is_delete q = False"

fun is_load :: "statement \<Rightarrow> bool" where
  "is_load (Load q) = True"
| "is_load q = False"

fun is_insert :: "statement \<Rightarrow> bool" where
  "is_insert (InsertExtractionLog ts s e) = True"
| "is_insert q = False"

fun is_terminal :: "statement \<Rightarrow> bool" where
  "is_terminal (UpdateCompleted ts n i) = True"
| "is_terminal (UpdateFailed ts msg i) = True"
| "is_terminal q = False"

definition caught :: "exn option \<Rightarrow> bool" where
  "caught r = (case r of None \<Rightarrow> True | Some x \<Rightarrow> exn_class_of x = IOException)"


lemma log_msg_fields [simp]:
  "submitted (log_msg l m w) = submitted w"
  "extraction_log (log_msg l m w) = extraction_log w"
  "air_quality (log_msg l m w) = air_quality w"
  "clock (log_msg l m w) = clock w"
  "closed (log_msg l m w) = closed w"
  "logging (log_msg l m w) = logging w @ [(l, m)]"
  by (simp_all add: log_msg_def)

lemma datetime_now_fields [simp]:
  "fst (datetime_now E w) = now E (clock w)"
  "submitted (snd (datetime_now E w)) = submitted w"
  "extraction_log (snd (datetime_now E w)) = extraction_log w"
  "air_quality (snd (datetime_now E w)) = air_quality w"
  "clock (snd (datetime_now E w)) = Suc (clock w)"
  "closed (snd (datetime_now E w)) = closed w"
  "logging (snd (datetime_now E w)) = logging w"
  by (simp_all add: datetime_now_def)

lemma close_fields [simp]:
  "submitted (close_database_connection w) = submitted w"
  "extraction_log (close_database_connection w) = extraction_log w"
  "air_quality (close_database_connection w) = air_quality w"
  "clock (close_database_connection w) = clock w"
  "closed (close_database_connection w) = Suc (closed w)"
  "logging (close_database_connection w) = logging w"
  by (simp_all add: close_database_connection_def)

lemma apply_statement_fields [simp]:
  "submitted (apply_statement E q w) = submitted w"
  "clock (apply_statement E q w) = clock w"
  "closed (apply_statement E q w) = closed w"
  "logging (apply_statement E q w) = logging w"
  by (cases q; simp)+

lemma apply_statement_extraction_log:
  "\<not> is_terminal q \<Longrightarrow> \<not> is_insert q \<Longrightarrow>
     extraction_log (apply_statement E q w) = extraction_log w"
  by (cases q) simp_all

lemma apply_statement_air_quality:
  "\<not> is_delete q \<Longrightarrow> \<not> is_load q \<Longrightarrow> air_quality (apply_statement E q w) = air_quality w"
  by (cases q) simp_all

lemma execute_fields [simp]:
  "fst (execute E q w) = raises E (length (submitted w)) q"
  "submitted (snd (execute E q w)) = submitted w @ [(q, raises E (length (submitted w)) q)]"
  "clock (snd (execute E q w)) = clock w"
  "closed (snd (execute E q w)) = closed w"
  "logging (snd (execute E q w)) = logging w"
  by (simp_all add: execute_def Let_def split: option.splits)

lemma execute_extraction_log:
  "extraction_log (snd (execute E q w)) =
     (case raises E (length (submitted w)) q of
        None \<Rightarrow> extraction_log (apply_statement E q w)
      | Some x \<Rightarrow> extraction_log w)"
  by (cases q; simp add: execute_def Let_def split: option.splits)

lemma execute_air_quality:
  "air_quality (snd (execute E q w)) =
     (case raises E (length (submitted w)) q of
        None \<Rightarrow> air_quality (apply_statement E q w)
      | Some x \<Rightarrow> air_quality w)"
  by (cases q; simp add: execute_def Let_def split: option.splits)





lemma delete_month_loop_deletes:
  "delete_month_loop E index_date end_dt w = (r, w') \<Longrightarrow>
     (\<exists>xs. submitted w' = submitted w @ xs \<and> list_all (\<lambda>(q, x). is_delete q) xs) \<and>
     extraction_log w' = extraction_log w \<and> (\<exists>lg. logging w' = logging w @ lg)"
proof (induction "month_loop_measure index_date end_dt" arbitrary: index_date w rule: less_induct)
  case less
  define mm where "mm = zfill 2 (str_nat (month index_date))"
  define w1 where "w1 = log_msg INFO (''Deleting existing data for '' @ str_nat (year index_date) @
                                  ''-'' @ mm) w"
  define q where "q = DeleteAirQuality (year index_date) mm"
  define x where "x = raises E (length (submitted w)) q"
  define w2 where "w2 = snd (execute E q w1)"
  have ex: "execute E q w1 = (x, w2)"
    by (simp add: x_def w2_def w1_def prod_eq_iff)
  have sub2: "submitted w2 = submitted w @ [(q, x)]" "extraction_log w2 = extraction_log w"
    "logging w2 = logging w @ [(INFO, ''Deleting existing data for '' @
                                  str_nat (year index_date) @ ''-'' @ mm)]"
    by (simp_all add: w2_def w1_def x_def q_def execute_extraction_log split: option.splits)
  show ?case
  proof (cases "datetime_le index_date end_dt")
    case False
    with less.prems show ?thesis
      by (simp add: delete_month_loop.simps)
  next
    case True
    show ?thesis
    proof (cases x)
      case (Some e)
      with True ex less.prems have "w' = w2"
        by (simp add: delete_month_loop.simps[of E index_date] Let_def mm_def w1_def q_def)
      with sub2 show ?thesis by (simp add: q_def)
    next
      case None
      show ?thesis
      proof (cases "relativedelta_add index_date 1")
        case (Inl e)
        with None True ex less.prems have "w' = w2"
          by (simp add: delete_month_loop.simps[of E index_date] Let_def mm_def w1_def q_def)
        with sub2 show ?thesis by (simp add: q_def)
      next
        case (Inr next_date)
        with None True ex less.prems have rec: "delete_month_loop E next_date end_dt w2 = (r, w')"
          by (simp add: delete_month_loop.simps[of E index_date] Let_def mm_def w1_def q_def)
        have "(\<exists>xs. submitted w' = submitted w2 @ xs \<and> list_all (\<lambda>(q, x). is_delete q) xs) \<and>
              extraction_log w' = extraction_log w2 \<and> (\<exists>lg. logging w' = logging w2 @ lg)"
          using month_loop_measure_decreases[OF True Inr] rec by (rule less.hyps)
        with sub2 show ?thesis by (auto simp: q_def)
      qed
    qed
  qed
qed


lemma delete_existing_data_deletes:
  assumes "delete_existing_data E s e w = (r, w')"
  shows "(\<exists>xs. submitted w' = submitted w @ xs \<and> list_all (\<lambda>(q, x). is_delete q) xs) \<and>
     extraction_log w' = extraction_log w \<and> (\<exists>lg. logging w' = logging w @ lg)"
proof (cases "strptime s")
  case (Inl x)
  with assms show ?thesis by (simp add: delete_existing_data_def)
next
  case s: (Inr ds)
  show ?thesis
  proof (cases "strptime e")
    case (Inl x)
    with s assms show ?thesis by (simp add: delete_existing_data_def)
  next
    case e: (Inr de)
    obtain r1 w1 where l: "delete_month_loop E ds de w = (r1, w1)"
      by (cases "delete_month_loop E ds de w")
    from delete_month_loop_deletes[OF l] s e l assms show ?thesis
      by (cases r1) (auto simp: delete_existing_data_def)
  qed
qed


definition load_of :: "env \<Rightarrow> string \<Rightarrow> string \<Rightarrow> string \<Rightarrow> statement" where
  "load_of E base_path tmpl p = Load (compile_data_file_query E base_path p tmpl)"

definition load_outcomes :: "nat \<Rightarrow> exn + nat \<Rightarrow> exn option list \<Rightarrow> bool" where
  "load_outcomes k r os =
     (case r of
        Inr n \<Rightarrow> length os = k \<and> list_all caught os
      | Inl x \<Rightarrow> length os \<le> k \<and> os \<noteq> [] \<and> last os = Some x \<and> \<not> caught (Some x) \<and>
                 list_all caught (butlast os))"

fun load_logging :: "(string \<times> exn option) list \<Rightarrow> (level \<times> string) list" where
  "load_logging [] = []"
| "load_logging ((p, r) # rest) =
     (INFO, ''Extracting data from '' @ p) #
     (case r of
        None \<Rightarrow> [(INFO, ''Extracted data from '' @ p @ ''!'')]
      | Some x \<Rightarrow> (if exn_class_of x = IOException
                   then [(WARNING, ''Could not find data from '' @ p @ '': '' @ str_exn x)]
                   else [])) @
     load_logging rest"

lemma load_logging_Cons:
  "load_logging (pr # rest) = load_logging [pr] @ load_logging rest"
  by (cases pr) simp

lemma load_loop_trace:
  "load_loop E base_path tmpl ps n w = (r, w') \<Longrightarrow>
     \<exists>os. submitted w' = submitted w @ zip (map (load_of E base_path tmpl) ps) os \<and>
          load_outcomes (length ps) r os \<and>
          logging w' = logging w @ load_logging (zip ps os) \<and>
          extraction_log w' = extraction_log w \<and>
          (\<forall>n'. r = Inr n' \<longrightarrow> n' = n + length (filter (\<lambda>x. x = None) os))"
proof (induction ps arbitrary: n w)
  case Nil
  then show ?case by (auto simp: load_outcomes_def)
next
  case (Cons p ps)
  define w1 where "w1 = log_msg INFO (''Extracting data from '' @ p) w"
  define q where "q = load_of E base_path tmpl p"
  define x where "x = raises E (length (submitted w)) q"
  define w2 where "w2 = snd (execute E q w1)"
  have ex: "execute E q w1 = (x, w2)"
    by (simp add: x_def w2_def w1_def prod_eq_iff)
  have f2: "submitted w2 = submitted w @ [(q, x)]" "extraction_log w2 = extraction_log w"
    "logging w2 = logging w @ [(INFO, ''Extracting data from '' @ p)]"
    by (simp_all add: w2_def w1_def x_def q_def load_of_def execute_extraction_log split: option.splits)
  show ?case
  proof (cases "caught x")
    case False
    then obtain e where e: "x = Some e" "exn_class_of e \<noteq> IOException"
      by (auto simp: caught_def split: option.splits)
    with ex Cons.prems have "r = Inl e" "w' = w2"
      by (simp_all add: Let_def w1_def q_def load_of_def)
    with f2 e show ?thesis
      by (intro exI[of _ "[x]"]) (simp add: load_outcomes_def caught_def q_def)
  next
    case True
    define w3 where "w3 = (case x of
        None \<Rightarrow> log_msg INFO (''Extracted data from '' @ p @ ''!'') w2
      | Some e \<Rightarrow> log_msg WARNING (''Could not find data from '' @ p @ '': '' @ str_exn e) w2)"
    define n3 where "n3 = (case x of None \<Rightarrow> n + 1 | Some e \<Rightarrow> n)"
    have rec: "load_loop E base_path tmpl ps n3 w3 = (r, w')"
      using True ex Cons.prems
      by (cases x) (simp_all add: Let_def w1_def q_def load_of_def w3_def n3_def caught_def)
    from Cons.IH[OF rec] obtain os where os:
      "submitted w' = submitted w3 @ zip (map (load_of E base_path tmpl) ps) os"
      "load_outcomes (length ps) r os"
      "logging w' = logging w3 @ load_logging (zip ps os)"
      "extraction_log w' = extraction_log w3"
      "\<forall>n'. r = Inr n' \<longrightarrow> n' = n3 + length (filter (\<lambda>x. x = None) os)"
      by blast
    have f3: "submitted w3 = submitted w2" "extraction_log w3 = extraction_log w2"
      by (cases x; simp add: w3_def)+
    have l3: "logging w3 = logging w @ load_logging [(p, x)]"
      using True f2(3) by (cases x) (simp_all add: w3_def caught_def)
    have lo: "load_outcomes (length (p # ps)) r (x # os)"
      using os(2) True by (cases r) (auto simp: load_outcomes_def)
    have cnt: "\<forall>n'. r = Inr n' \<longrightarrow> n' = n + length (filter (\<lambda>x. x = None) (x # os))"
      using os(5) by (cases x) (simp_all add: n3_def)
    have sub: "submitted w' = submitted w @ zip (map (load_of E base_path tmpl) (p # ps)) (x # os)"
      using os(1) f2(1) f3(1) by (simp add: q_def)
    have lg: "logging w' = logging w @ load_logging (zip (p # ps) (x # os))"
      using os(3) l3 load_logging_Cons[of "(p, x)" "zip ps os"] by simp
    have el: "extraction_log w' = extraction_log w"
      using os(4) f2(2) f3(2) by simp
    from sub lo lg el cnt show ?thesis
      by blast
  qed
qed

section \<open>What the ledger operations and the row count do\<close>

lemma log_extraction_start_trace:
  assumes "log_extraction_start E s e w = (r, w')"
  shows "submitted w' = submitted w @
           [(InsertExtractionLog (now E (clock w)) s e,
             raises E (length (submitted w)) (InsertExtractionLog (now E (clock w)) s e))]"
    and "air_quality w' = air_quality w"
    and "raises E (length (submitted w)) (InsertExtractionLog (now E (clock w)) s e) = Some x \<Longrightarrow>
           r = Inl x \<and> extraction_log w' = extraction_log w"
    and "raises E (length (submitted w)) (InsertExtractionLog (now E (clock w)) s e) = None \<Longrightarrow>
           r = Inr (new_extraction_id E (extraction_log w)) \<and>
           extraction_log w' = extraction_log w @
             [\<lparr>log_extraction_id = new_extraction_id E (extraction_log w),
               log_extraction_start_datetime = now E (clock w), log_extraction_end_datetime = None,
               log_start_date = s, log_end_date = e, log_status = ''running'',
               log_records_extracted = None, log_error_message = None\<rparr>]"
    and "\<exists>lg. logging w' = logging w @ lg"
  using assms
  by (auto simp: log_extraction_start_def execute_def datetime_now_def Let_def split: option.splits)

lemma log_extraction_complete_trace:
  assumes "log_extraction_complete E i n w = (r, w')"
  shows "raises E (length (submitted w)) (UpdateCompleted (now E (clock w)) n i) = r"
    and "submitted w' = submitted w @ [(UpdateCompleted (now E (clock w)) n i, r)]"
    and "air_quality w' = air_quality w"
    and "extraction_log w' =
           (case r of None \<Rightarrow> map (set_completed (now E (clock w)) n i) (extraction_log w)
            | Some x \<Rightarrow> extraction_log w)"
    and "\<exists>lg. logging w' = logging w @ lg"
  using assms
  by (auto simp: log_extraction_complete_def execute_def datetime_now_def Let_def split: option.splits)

lemma log_extraction_failed_trace:
  assumes "log_extraction_failed E i msg w = (r, w')"
  shows "raises E (length (submitted w)) (UpdateFailed (now E (clock w)) msg i) = r"
    and "submitted w' = submitted w @ [(UpdateFailed (now E (clock w)) msg i, r)]"
    and "air_quality w' = air_quality w"
    and "extraction_log w' =
           (case r of None \<Rightarrow> map (set_failed (now E (clock w)) msg i) (extraction_log w)
            | Some x \<Rightarrow> extraction_log w)"
  using assms
  by (auto simp: log_extraction_failed_def execute_def datetime_now_def Let_def split: option.splits)

lemma count_records_trace:
  assumes "count_records E s e w = (r, w')"
  shows "submitted w' = submitted w @
           [(CountAirQuality s e, raises E (length (submitted w)) (CountAirQuality s e))]"
    and "air_quality w' = air_quality w"
    and "extraction_log w' = extraction_log w"
    and "r = (case raises E (length (submitted w)) (CountAirQuality s e) of
                None \<Rightarrow> Inr (length (filter (in_range s e) (air_quality w)))
              | Some x \<Rightarrow> Inl x)"
    and "logging w' = logging w"
  using assms
  by (auto simp: count_records_def execute_def Let_def split: option.splits)

lemma get_last_extraction_date_trace:
  assumes "get_last_extraction_date E w = (r, w')"
  shows "submitted w' = submitted w @
           [(SelectLastSuccessful, raises E (length (submitted w)) SelectLastSuccessful)]"
    and "air_quality w' = air_quality w"
    and "extraction_log w' = extraction_log w"
    and "clock w' = clock w"
    and "\<exists>lg. logging w' = logging w @ lg"
  using assms
  by (auto simp: get_last_extraction_date_def execute_def Let_def split: option.splits if_splits)

lemma on_exception_opened:
  assumes "on_exception E (Some i) x w = (r, w')"
  obtains ts rf where
    "submitted w' = submitted w @ [(UpdateFailed ts (str_exn x) i, rf)]"
    "r = Inl (case rf of None \<Rightarrow> x | Some x' \<Rightarrow> x')"
    "extraction_log w' =
       (case rf of None \<Rightarrow> map (set_failed ts (str_exn x) i) (extraction_log w)
        | Some x' \<Rightarrow> extraction_log w)"
    "air_quality w' = air_quality w"
proof -
  obtain rf w1 where f: "log_extraction_failed E i (str_exn x) w = (rf, w1)"
    by (cases "log_extraction_failed E i (str_exn x) w")
  note t = log_extraction_failed_trace[OF f]
  from assms f have "r = Inl (case rf of None \<Rightarrow> x | Some x' \<Rightarrow> x') \<and>
    submitted w' = submitted w1 \<and> extraction_log w' = extraction_log w1 \<and>
    air_quality w' = air_quality w1"
    by (cases rf) (auto simp: on_exception_def)
  with t show ?thesis
    by (intro that[of "now E (clock w)" rf]) simp_all
qed

lemma on_exception_not_opened:
  assumes "on_exception E None x w = (r, w')"
  shows "r = Inl x" "submitted w' = submitted w" "extraction_log w' = extraction_log w"
    "air_quality w' = air_quality w"
  using assms by (auto simp: on_exception_def)

section \<open>The outcomes of the block that runs once the job is opened\<close>

lemma guard_deletes:
  assumes "(if \<not> args_incremental a
            then delete_existing_data E s e
                   (log_msg INFO ''Deleting existing data for the specified date range...'' w)
            else (None, w)) = (rg, wg)"
  shows "\<exists>ds. submitted wg = submitted w @ ds \<and> list_all (\<lambda>(q, x). is_delete q) ds \<and>
           (args_incremental a \<longrightarrow> ds = [])"
    and "extraction_log wg = extraction_log w"
    and "\<exists>lg. logging wg = logging w @ lg"
proof -
  show "\<exists>ds. submitted wg = submitted w @ ds \<and> list_all (\<lambda>(q, x). is_delete q) ds \<and>
           (args_incremental a \<longrightarrow> ds = [])"
  proof (cases "args_incremental a")
    case True
    with assms show ?thesis by simp
  next
    case False
    with assms delete_existing_data_deletes[of E s e
        "log_msg INFO ''Deleting existing data for the specified date range...'' w" rg wg]
    show ?thesis by simp
  qed
  show "extraction_log wg = extraction_log w"
  proof (cases "args_incremental a")
    case True
    with assms show ?thesis by simp
  next
    case False
    with assms delete_existing_data_deletes[of E s e
        "log_msg INFO ''Deleting existing data for the specified date range...'' w" rg wg]
    show ?thesis by simp
  qed
  show "\<exists>lg. logging wg = logging w @ lg"
  proof (cases "args_incremental a")
    case True
    with assms show ?thesis by simp
  next
    case False
    with assms delete_existing_data_deletes[of E s e
        "log_msg INFO ''Deleting existing data for the specified date range...'' w" rg wg]
    show ?thesis by auto
  qed
qed

lemma run_job_outcome:
  assumes "run_job E a location_ids i s e w = (r, w')"
  obtains
    (completed) ds ps tmpl os ts n where
      "r = Inr ()"
      "compile_data_file_paths location_ids s e = Inr ps"
      "read_query E (args_extract_query_template_path a) = Inr tmpl"
      "submitted w' = submitted w @ ds @
         zip (map (load_of E (args_source_base_path a) tmpl) ps) os @
         [(CountAirQuality s e, None), (UpdateCompleted ts n i, None)]"
      "list_all (\<lambda>(q, x). is_delete q) ds" "args_incremental a \<longrightarrow> ds = []"
      "length os = length ps" "list_all caught os"
      "n = length (filter (in_range s e) (air_quality w'))"
      "extraction_log w' = map (set_completed ts n i) (extraction_log w)"
      "\<exists>l1 l2. logging w' = logging w @ l1 @ load_logging (zip ps os) @ l2"
  | (load_failed) ds ps tmpl os x where
      "r = Inl x"
      "compile_data_file_paths location_ids s e = Inr ps"
      "read_query E (args_extract_query_template_path a) = Inr tmpl"
      "submitted w' = submitted w @ ds @ zip (map (load_of E (args_source_base_path a) tmpl) ps) os"
      "list_all (\<lambda>(q, x). is_delete q) ds" "args_incremental a \<longrightarrow> ds = []"
      "length os \<le> length ps" "os \<noteq> []" "last os = Some x" "\<not> caught (Some x)"
      "list_all caught (butlast os)"
      "extraction_log w' = extraction_log w"
  | (other_failed) ds ls tl x where
      "r = Inl x"
      "submitted w' = submitted w @ ds @ ls @ tl"
      "list_all (\<lambda>(q, x). is_delete q) ds" "args_incremental a \<longrightarrow> ds = []"
      "list_all (\<lambda>(q, x). is_load q \<and> caught x) ls"
      "tl = [] \<or> tl = [(CountAirQuality s e, Some x)] \<or>
       (\<exists>ts n. tl = [(CountAirQuality s e, None), (UpdateCompleted ts n i, Some x)])"
      "extraction_log w' = extraction_log w"
proof (cases "compile_data_file_paths location_ids s e")
  case (Inl x)
  with assms have "r = Inl x" "w' = w" by (simp_all add: run_job_def)
  then show ?thesis by (intro other_failed[of x "[]" "[]" "[]"]) simp_all
next
  case ps: (Inr ps)
  show ?thesis
  proof (cases "read_query E (args_extract_query_template_path a)")
    case (Inl x)
    with ps assms have "r = Inl x" "w' = w" by (simp_all add: run_job_def)
    then show ?thesis by (intro other_failed[of x "[]" "[]" "[]"]) simp_all
  next
    case tmpl: (Inr tmpl)
    obtain rg wg where g: "(if \<not> args_incremental a
            then delete_existing_data E s e
                   (log_msg INFO ''Deleting existing data for the specified date range...'' w)
            else (None, w)) = (rg, wg)"
      by (cases "(if \<not> args_incremental a
            then delete_existing_data E s e
                   (log_msg INFO ''Deleting existing data for the specified date range...'' w)
            else (None, w))")
    from guard_deletes[OF g] obtain ds where ds:
      "submitted wg = submitted w @ ds" "list_all (\<lambda>(q, x). is_delete q) ds"
      "args_incremental a \<longrightarrow> ds = []" "extraction_log wg = extraction_log w"
      by blast
    from guard_deletes(3)[OF g] obtain lg where lg: "logging wg = logging w @ lg"
      by blast
    show ?thesis
    proof (cases rg)
      case (Some x)
      with ps tmpl g assms have "r = Inl x" "w' = wg" by (simp_all add: run_job_def)
      with ds show ?thesis by (intro other_failed[of x ds "[]" "[]"]) simp_all
    next
      case None
      obtain rl wl where l: "load_loop E (args_source_base_path a) tmpl ps 0 wg = (rl, wl)"
        by (cases "load_loop E (args_source_base_path a) tmpl ps 0 wg")
      from load_loop_trace[OF l] obtain os where os:
        "submitted wl = submitted wg @ zip (map (load_of E (args_source_base_path a) tmpl) ps) os"
        "load_outcomes (length ps) rl os" "extraction_log wl = extraction_log wg"
        "logging wl = logging wg @ load_logging (zip ps os)"
        by blast
      have run: "run_job E a location_ids i s e w =
          (case rl of Inl x \<Rightarrow> (Inl x, wl)
           | Inr k \<Rightarrow>
               (case count_records E s e wl of
                  (Inl x, w3) \<Rightarrow> (Inl x, w3)
                | (Inr records_extracted, w3) \<Rightarrow>
                    (case log_extraction_complete E i records_extracted w3 of
                       (Some x, w4) \<Rightarrow> (Inl x, w4)
                     | (None, w4) \<Rightarrow> (Inr (), w4))))"
        using ps tmpl g None l by (simp add: run_job_def)
      show ?thesis
      proof (cases rl)
        case (Inl x)
        with run assms have rw: "r = Inl x" "w' = wl" by simp_all
        from os(2) Inl have "length os \<le> length ps" "os \<noteq> []" "last os = Some x"
          "\<not> caught (Some x)" "list_all caught (butlast os)"
          by (simp_all add: load_outcomes_def)
        with rw os ds ps tmpl show ?thesis
          by (intro load_failed[of x ps tmpl ds os]) simp_all
      next
        case (Inr k)
        with os(2) have oc: "length os = length ps" "list_all caught os"
          by (simp_all add: load_outcomes_def)
        define ls where "ls = zip (map (load_of E (args_source_base_path a) tmpl) ps) os"
        have ls: "list_all (\<lambda>(q, x). is_load q \<and> caught x) ls"
          using oc unfolding ls_def list_all_iff
          by (auto simp: load_of_def in_set_zip)
        obtain rc wc where c: "count_records E s e wl = (rc, wc)"
          by (cases "count_records E s e wl")
        note ct = count_records_trace[OF c]
        show ?thesis
        proof (cases "raises E (length (submitted wl)) (CountAirQuality s e)")
          case (Some x)
          with ct have "rc = Inl x" by simp
          with run Inr c assms have rw: "r = Inl x" "w' = wc" by simp_all
          show ?thesis
            using rw ds os ct Some ls
            by (intro other_failed[of x ds ls "[(CountAirQuality s e, Some x)]"])
              (simp_all add: ls_def)
        next
          case None
          define n where "n = length (filter (in_range s e) (air_quality wl))"
          from None ct have rc: "rc = Inr n" by (simp add: n_def)
          obtain ru wu where u: "log_extraction_complete E i n wc = (ru, wu)"
            by (cases "log_extraction_complete E i n wc")
          note ut = log_extraction_complete_trace[OF u]
          show ?thesis
          proof (cases ru)
            case (Some x)
            with run Inr c rc u assms have rw: "r = Inl x" "w' = wu" by simp_all
            show ?thesis
              using rw ds os ct None ls ut Some
              by (intro other_failed[of x ds ls
                    "[(CountAirQuality s e, None), (UpdateCompleted (now E (clock wc)) n i, Some x)]"])
                (simp_all add: ls_def)
          next
            case ruN: None
            with run Inr c rc u assms have rw: "r = Inr ()" "w' = wu" by simp_all
            from ut(5) obtain lu where "logging wu = logging wc @ lu"
              by blast
            with lg os(4) ct(5) have "logging wu = logging w @ lg @ load_logging (zip ps os) @ lu"
              by simp
            then have lw: "\<exists>l1 l2. logging w' = logging w @ l1 @ load_logging (zip ps os) @ l2"
              unfolding rw by blast
            show ?thesis
              using rw ds os(1-3) ct(1-4) None ut(1-4) ruN oc ps tmpl
              by (intro completed[of ps tmpl ds os "now E (clock wc)" n])
                (simp_all add: n_def lw[unfolded rw])
          qed
        qed
      qed
    qed
  qed
qed

section \<open>The outcomes of a whole run\<close>

fun is_select :: "statement \<Rightarrow> bool" where
  "is_select SelectLastSuccessful = True"
| "is_select q = False"

lemma determine_date_range_trace:
  assumes "determine_date_range E True w = (r, w1)"
  shows "submitted w1 = submitted w @
           [(SelectLastSuccessful, raises E (length (submitted w)) SelectLastSuccessful)]"
    and "extraction_log w1 = extraction_log w" and "air_quality w1 = air_quality w"
    and "\<exists>lg. logging w1 = logging w @ lg"
proof -
  obtain l wl where g: "get_last_extraction_date E w = (l, wl)"
    by (cases "get_last_extraction_date E w")
  note t = get_last_extraction_date_trace[OF g]
  from assms g have "submitted w1 = submitted wl \<and> extraction_log w1 = extraction_log wl \<and>
      air_quality w1 = air_quality wl \<and> (\<exists>lg. logging w1 = logging wl @ lg)"
    by (auto simp: determine_date_range_def Let_def datetime_now_def
        split: option.splits sum.splits prod.splits if_splits)
  with t show "submitted w1 = submitted w @
           [(SelectLastSuccessful, raises E (length (submitted w)) SelectLastSuccessful)]"
    and "extraction_log w1 = extraction_log w" and "air_quality w1 = air_quality w"
    and "\<exists>lg. logging w1 = logging w @ lg"
    by auto
qed

lemma resolve_range_trace:
  assumes "resolve_range E a w = (r, w1)"
  shows "\<exists>sels. submitted w1 = submitted w @ sels \<and> list_all (\<lambda>(q, x). is_select q) sels \<and>
           (\<not> args_incremental a \<longrightarrow> sels = [])"
    and "extraction_log w1 = extraction_log w" and "air_quality w1 = air_quality w"
    and "\<not> args_incremental a \<Longrightarrow> r = Inr (s, e) \<Longrightarrow>
           args_start_date a = Some s \<and> args_end_date a = Some e"
    and "\<exists>lg. logging w1 = logging w @ lg"
proof -
  show "\<exists>lg. logging w1 = logging w @ lg"
    using assms determine_date_range_trace(4)[of E w r w1]
    by (auto simp: resolve_range_def split: if_splits)
  show "\<exists>sels. submitted w1 = submitted w @ sels \<and> list_all (\<lambda>(q, x). is_select q) sels \<and>
           (\<not> args_incremental a \<longrightarrow> sels = [])"
    using assms determine_date_range_trace(1)[of E w r w1]
    by (auto simp: resolve_range_def split: if_splits)
  show "extraction_log w1 = extraction_log w"
    using assms determine_date_range_trace(2)[of E w r w1]
    by (auto simp: resolve_range_def split: if_splits)
  show "air_quality w1 = air_quality w"
    using assms determine_date_range_trace(3)[of E w r w1]
    by (auto simp: resolve_range_def split: if_splits)
  show "\<not> args_incremental a \<Longrightarrow> r = Inr (s, e) \<Longrightarrow>
           args_start_date a = Some s \<and> args_end_date a = Some e"
    using assms
    by (cases "args_start_date a"; cases "args_end_date a")
      (auto simp: resolve_range_def split: if_splits)
qed

lemma up_to_date_trace:
  assumes "up_to_date E a w = (r, w1)"
  shows "\<exists>sels. submitted w1 = submitted w @ sels \<and> list_all (\<lambda>(q, x). is_select q) sels \<and>
           (\<not> args_incremental a \<longrightarrow> sels = [])"
    and "extraction_log w1 = extraction_log w" and "air_quality w1 = air_quality w"
    and "\<exists>lg. logging w1 = logging w @ lg"
proof -
  obtain l wl where g: "get_last_extraction_date E w = (l, wl)"
    by (cases "get_last_extraction_date E w")
  note t = get_last_extraction_date_trace[OF g]
  from assms g have "\<not> args_incremental a \<and> w1 = w \<or>
      args_incremental a \<and> submitted w1 = submitted wl \<and> extraction_log w1 = extraction_log wl \<and>
      air_quality w1 = air_quality wl \<and> (\<exists>lg. logging w1 = logging wl @ lg)"
    by (auto simp: up_to_date_def Let_def datetime_now_def
        split: option.splits sum.splits prod.splits if_splits)
  with t show "\<exists>sels. submitted w1 = submitted w @ sels \<and>
           list_all (\<lambda>(q, x). is_select q) sels \<and> (\<not> args_incremental a \<longrightarrow> sels = [])"
    and "extraction_log w1 = extraction_log w" and "air_quality w1 = air_quality w"
    and "\<exists>lg. logging w1 = logging w @ lg"
    by auto
qed

definition opened_row :: "env \<Rightarrow> world \<Rightarrow> datetime \<Rightarrow> string \<Rightarrow> string \<Rightarrow> extraction_log_row" where
  "opened_row E w ts s e =
     \<lparr>log_extraction_id = new_extraction_id E (extraction_log w),
      log_extraction_start_datetime = ts, log_extraction_end_datetime = None,
      log_start_date = s, log_end_date = e, log_status = ''running'',
      log_records_extracted = None, log_error_message = None\<rparr>"

lemma finally_close_fields [simp]:
  "fst (finally_close rw) = fst rw"
  "submitted (snd (finally_close rw)) = submitted (snd rw)"
  "extraction_log (snd (finally_close rw)) = extraction_log (snd rw)"
  "air_quality (snd (finally_close rw)) = air_quality (snd rw)"
  "logging (snd (finally_close rw)) = logging (snd rw)"
  by (simp_all add: finally_close_def)

lemma extract_data_outcome:
  assumes "extract_data E a location_ids w = (r, w')"
  obtains
    (not_opened) sels ins where
      "submitted w' = submitted w @ sels @ ins"
      "list_all (\<lambda>(q, x). is_select q) sels"
      "ins = [] \<or> (\<exists>ts s e x. ins = [(InsertExtractionLog ts s e, Some x)])"
      "extraction_log w' = extraction_log w"
  | (completed) sels ts0 s e ds ps tmpl os ts n where
      "r = Inr ()"
      "compile_data_file_paths location_ids s e = Inr ps"
      "read_query E (args_extract_query_template_path a) = Inr tmpl"
      "submitted w' = submitted w @ sels @ (InsertExtractionLog ts0 s e, None) # ds @
         zip (map (load_of E (args_source_base_path a) tmpl) ps) os @
         [(CountAirQuality s e, None),
          (UpdateCompleted ts n (new_extraction_id E (extraction_log w)), None)]"
      "list_all (\<lambda>(q, x). is_select q) sels"
      "\<not> args_incremental a \<longrightarrow>
         sels = [] \<and> args_start_date a = Some s \<and> args_end_date a = Some e"
      "list_all (\<lambda>(q, x). is_delete q) ds" "args_incremental a \<longrightarrow> ds = []"
      "length os = length ps" "list_all caught os"
      "n = length (filter (in_range s e) (air_quality w'))"
      "extraction_log w' =
         map (set_completed ts n (new_extraction_id E (extraction_log w)))
           (extraction_log w @ [opened_row E w ts0 s e])"
      "\<exists>l1 l2. logging w' = logging w @ l1 @ load_logging (zip ps os) @ l2"
  | (load_failed) sels ts0 s e ds ps tmpl os x ts rf where
      "r = Inl (case rf of None \<Rightarrow> x | Some x' \<Rightarrow> x')"
      "compile_data_file_paths location_ids s e = Inr ps"
      "read_query E (args_extract_query_template_path a) = Inr tmpl"
      "submitted w' = submitted w @ sels @ (InsertExtractionLog ts0 s e, None) # ds @
         zip (map (load_of E (args_source_base_path a) tmpl) ps) os @
         [(UpdateFailed ts (str_exn x) (new_extraction_id E (extraction_log w)), rf)]"
      "list_all (\<lambda>(q, x). is_select q) sels"
      "\<not> args_incremental a \<longrightarrow>
         sels = [] \<and> args_start_date a = Some s \<and> args_end_date a = Some e"
      "list_all (\<lambda>(q, x). is_delete q) ds" "args_incremental a \<longrightarrow> ds = []"
      "length os \<le> length ps" "os \<noteq> []" "last os = Some x" "\<not> caught (Some x)"
      "list_all caught (butlast os)"
      "extraction_log w' =
         (case rf of
            None \<Rightarrow> map (set_failed ts (str_exn x) (new_extraction_id E (extraction_log w)))
                      (extraction_log w @ [opened_row E w ts0 s e])
          | Some x' \<Rightarrow> extraction_log w @ [opened_row E w ts0 s e])"
  | (other_failed) sels ts0 s e ds ls tl x ts rf where
      "r = Inl (case rf of None \<Rightarrow> x | Some x' \<Rightarrow> x')"
      "submitted w' = submitted w @ sels @ (InsertExtractionLog ts0 s e, None) # ds @ ls @ tl @
         [(UpdateFailed ts (str_exn x) (new_extraction_id E (extraction_log w)), rf)]"
      "list_all (\<lambda>(q, x). is_select q) sels"
      "\<not> args_incremental a \<longrightarrow>
         sels = [] \<and> args_start_date a = Some s \<and> args_end_date a = Some e"
      "list_all (\<lambda>(q, x). is_delete q) ds" "args_incremental a \<longrightarrow> ds = []"
      "list_all (\<lambda>(q, x). is_load q \<and> caught x) ls"
      "tl = [] \<or> tl = [(CountAirQuality s e, Some x)] \<or>
       (\<exists>ts' n. tl = [(CountAirQuality s e, None),
           (UpdateCompleted ts' n (new_extraction_id E (extraction_log w)), Some x)])"
      "extraction_log w' =
         (case rf of
            None \<Rightarrow> map (set_failed ts (str_exn x) (new_extraction_id E (extraction_log w)))
                      (extraction_log w @ [opened_row E w ts0 s e])
          | Some x' \<Rightarrow> extraction_log w @ [opened_row E w ts0 s e])"
proof -
  note out_completed = completed and out_load_failed = load_failed
    and out_other_failed = other_failed
  obtain rr w1 where rr: "resolve_range E a w = (rr, w1)"
    by (cases "resolve_range E a w")
  from resolve_range_trace(1)[OF rr] obtain sels1 where s1:
    "submitted w1 = submitted w @ sels1" "list_all (\<lambda>(q, x). is_select q) sels1"
    "\<not> args_incremental a \<longrightarrow> sels1 = []"
    by blast
  note f1 = resolve_range_trace(2,3)[OF rr]
  from resolve_range_trace(5)[OF rr] obtain lg1 where lg1: "logging w1 = logging w @ lg1"
    by blast
  show ?thesis
  proof (cases rr)
    case (Inl x)
    with rr assms have "(r, w') = finally_close (on_exception E None x w1)"
      by (simp add: extract_data_def)
    then have "submitted w' = submitted w1" "extraction_log w' = extraction_log w1"
      by (simp_all add: finally_close_def on_exception_def)
    with s1 f1 show ?thesis
      by (intro not_opened[of sels1 "[]"]) simp_all
  next
    case (Inr se)
    obtain s e where se: "se = (s, e)" by (cases se)
    from resolve_range_trace(4)[OF rr] Inr se
    have man: "\<not> args_incremental a \<longrightarrow> args_start_date a = Some s \<and> args_end_date a = Some e"
      by simp
    obtain ru w2 where ru: "up_to_date E a w1 = (ru, w2)"
      by (cases "up_to_date E a w1")
    from up_to_date_trace(1)[OF ru] obtain sels2 where s2:
      "submitted w2 = submitted w1 @ sels2" "list_all (\<lambda>(q, x). is_select q) sels2"
      "\<not> args_incremental a \<longrightarrow> sels2 = []"
      by blast
    note f2 = up_to_date_trace(2,3)[OF ru]
    from up_to_date_trace(4)[OF ru] obtain lg2 where lg2: "logging w2 = logging w1 @ lg2"
      by blast
    have sub2: "submitted w2 = submitted w @ (sels1 @ sels2)"
      "list_all (\<lambda>(q, x). is_select q) (sels1 @ sels2)"
      "\<not> args_incremental a \<longrightarrow> sels1 @ sels2 = []"
      "extraction_log w2 = extraction_log w"
      using s1 s2 f1 f2 by simp_all
    have step: "extract_data E a location_ids w =
        (case ru of
           Inl x \<Rightarrow> finally_close (on_exception E None x w2)
         | Inr True \<Rightarrow> finally_close (Inr (), close_database_connection w2)
         | Inr False \<Rightarrow>
             (case log_extraction_start E s e w2 of
                (Inl x, w3) \<Rightarrow> finally_close (on_exception E None x w3)
              | (Inr i, w3) \<Rightarrow>
                  (case run_job E a location_ids i s e w3 of
                     (Inl x, w4) \<Rightarrow> finally_close (on_exception E (Some i) x w4)
                   | (Inr u, w4) \<Rightarrow> finally_close (Inr (), w4))))"
      using rr Inr se ru by (simp add: extract_data_def split: sum.splits bool.splits)
    show ?thesis
    proof (cases ru)
      case (Inl x)
      with step assms have "(r, w') = finally_close (on_exception E None x w2)"
        by simp
      then have "submitted w' = submitted w2" "extraction_log w' = extraction_log w2"
        by (simp_all add: finally_close_def on_exception_def)
      with sub2 show ?thesis
        by (intro not_opened[of "sels1 @ sels2" "[]"]) simp_all
    next
      case up: (Inr b)
      show ?thesis
      proof (cases b)
        case True
        with up step assms have "(r, w') = finally_close (Inr (), close_database_connection w2)"
          by simp
        then have "submitted w' = submitted w2" "extraction_log w' = extraction_log w2"
          by (simp_all add: finally_close_def)
        with sub2 show ?thesis
          by (intro not_opened[of "sels1 @ sels2" "[]"]) simp_all
      next
        case False
        define ts0 where "ts0 = now E (clock w2)"
        define i where "i = new_extraction_id E (extraction_log w)"
        obtain ro w3 where ro: "log_extraction_start E s e w2 = (ro, w3)"
          by (cases "log_extraction_start E s e w2")
        note t3 = log_extraction_start_trace[OF ro]
        from t3(5) obtain lg3 where lg3: "logging w3 = logging w2 @ lg3"
          by blast
        show ?thesis
        proof (cases "raises E (length (submitted w2)) (InsertExtractionLog ts0 s e)")
          case (Some x)
          with t3(3)[of x] have ro': "ro = Inl x" "extraction_log w3 = extraction_log w2"
            by (simp_all add: ts0_def)
          with up False step ro assms have "(r, w') = finally_close (on_exception E None x w3)"
            by simp
          then have "submitted w' = submitted w3" "extraction_log w' = extraction_log w3"
            by (simp_all add: finally_close_def on_exception_def)
          with sub2 t3(1) Some ro' show ?thesis
            by (intro not_opened[of "sels1 @ sels2" "[(InsertExtractionLog ts0 s e, Some x)]"])
              (simp_all add: ts0_def)
        next
          case None
          with t3(4) sub2(4) have ro': "ro = Inr i"
            "extraction_log w3 = extraction_log w @ [opened_row E w ts0 s e]"
            by (simp_all add: ts0_def i_def opened_row_def)
          have sub3: "submitted w3 = submitted w @ (sels1 @ sels2) @ [(InsertExtractionLog ts0 s e, None)]"
            using t3(1) None sub2(1) by (simp add: ts0_def)
          have lgs: "logging w3 = logging w @ (lg1 @ lg2 @ lg3)"
            using lg1 lg2 lg3 by simp
          obtain rj wj where rj: "run_job E a location_ids i s e w3 = (rj, wj)"
            by (cases "run_job E a location_ids i s e w3")
          have step': "(r, w') =
              (case rj of Inl x \<Rightarrow> finally_close (on_exception E (Some i) x wj)
               | Inr u \<Rightarrow> finally_close (Inr (), wj))"
            using up False step ro ro' rj assms by (simp split: sum.splits)
          from rj show ?thesis
          proof (cases rule: run_job_outcome)
            case (completed ds ps tmpl os ts n)
            with step' have rw: "r = Inr ()" "submitted w' = submitted wj"
              "extraction_log w' = extraction_log wj" "air_quality w' = air_quality wj"
              "logging w' = logging wj"
              by (simp_all add: finally_close_def)
            from completed(11) lgs obtain l1 l2 where
              "logging wj = logging w @ ((lg1 @ lg2 @ lg3) @ l1) @ load_logging (zip ps os) @ l2"
              by auto
            then have lw: "\<exists>l1 l2. logging w' = logging w @ l1 @ load_logging (zip ps os) @ l2"
              unfolding rw by blast
            show ?thesis
              using rw(1-4) completed(2-10) sub3 sub2(2,3) ro' man lw
              by (intro out_completed[where s = s and e = e and ps = ps and tmpl = tmpl
                    and sels = "sels1 @ sels2" and ?ts0.0 = ts0 and ds = ds and os = os
                    and ts = ts and n = n])
                (simp_all add: i_def)
          next
            case (load_failed ds ps tmpl os x)
            obtain rh wh where h: "on_exception E (Some i) x wj = (rh, wh)"
              by (cases "on_exception E (Some i) x wj")
            from step' load_failed(1) h have rw: "r = rh" "submitted w' = submitted wh"
              "extraction_log w' = extraction_log wh"
              by (simp_all add: finally_close_def)
            from h show ?thesis
            proof (cases rule: on_exception_opened)
              case (1 ts rf)
              show ?thesis
                using rw 1 load_failed(2-12) sub3 sub2(2,3) ro' man
                by (intro out_load_failed[where rf = rf and x = x and s = s and e = e and ps = ps
                      and tmpl = tmpl and sels = "sels1 @ sels2" and ?ts0.0 = ts0 and ds = ds
                      and os = os and ts = ts])
                  (simp_all add: i_def cong: option.case_cong)
            qed
          next
            case (other_failed ds ls tl x)
            obtain rh wh where h: "on_exception E (Some i) x wj = (rh, wh)"
              by (cases "on_exception E (Some i) x wj")
            from step' other_failed(1) h have rw: "r = rh" "submitted w' = submitted wh"
              "extraction_log w' = extraction_log wh"
              by (simp_all add: finally_close_def)
            from h show ?thesis
            proof (cases rule: on_exception_opened)
              case (1 ts rf)
              show ?thesis
                using rw 1 other_failed(2-7) sub3 sub2(2,3) ro' man
                by (intro out_other_failed[where rf = rf and x = x and sels = "sels1 @ sels2"
                      and ?ts0.0 = ts0 and s = s and e = e and ds = ds and ls = ls and tl = tl
                      and ts = ts])
                  (simp_all add: i_def cong: option.case_cong)
            qed
          qed
        qed
      qed
    qed
  qed
qed

section \<open>Zero-padded months and the row-count query's comparison\<close>
























section \<open>A concrete store and engine for the examples\<close>







end
